theory Spec2Isabelle
  imports Main "HOL-Library.Word"
begin

section \<open>Data model of the chain package\<close>

text \<open>
  Byte slices (\<^verbatim>\<open>[]byte\<close>) are lists of 8-bit words. Where the source
  tests a slice against \<^verbatim>\<open>nil\<close> (a value read from the store), the model
  uses an option; where it only takes its length or its content, \<^verbatim>\<open>nil\<close>
  and the empty slice are the same list \<open>[]\<close>. Identifiers
  (\<^verbatim>\<open>hashx.Hash\<close>) are compared by content and used as map keys through
  their string rendering, so the model uses the bytes themselves.
  \<^verbatim>\<open>int32\<close> heights are 32-bit words read as signed numbers.
\<close>

type_synonym bytes = "8 word list"
type_synonym int32 = "32 word"

record TXOutput =
  Value :: int
  LockingKey :: bytes

record OutPoint =
  OutHash :: bytes
  Index :: int

record TXInput =
  PreviousOutPoint :: OutPoint
  Signature :: bytes
  PublicKey :: bytes

record Transaction =
  ID :: bytes
  Inputs :: "TXInput list"
  Outputs :: "TXOutput list"

record Block =
  Hash :: bytes
  PrevBlockHash :: bytes
  Height :: int32
  Nonce :: int
  Transactions :: "Transaction list"

text \<open>
  Values returned as \<^verbatim>\<open>error\<close> and values handed to
  \<^verbatim>\<open>log.Panic\<close>. \<open>Panic e\<close> is \<^verbatim>\<open>log.Panic(e)\<close>,
  \<open>PanicInvalidTransaction\<close> is
  \<^verbatim>\<open>log.Panic("ERROR: Invalid transaction")\<close>, and
  \<open>PanicNilBlock\<close> is the run-time panic of reading a field of a nil
  \<^verbatim>\<open>*Block\<close>.
\<close>

datatype error =
    ErrorNotFoundTransaction
  | ErrorBlockNotFount
  | ErrKeyRequired
  | ErrKeyTooLarge
  | ErrValueTooLarge
  | ErrStorage
  | Panic error
  | PanicInvalidTransaction
  | PanicNilBlock

subsection \<open>The persistence store\<close>

text \<open>
  Modelled from the spec: the persistence store is an external collaborator,
  "an ordered byte-keyed store" with a blocks namespace keyed by block identifier and
  a reserved key holding the tip identifier, with \<^verbatim>\<open>Get(key)\<close> and
  \<^verbatim>\<open>Put(key,value)\<close> inside a transaction. The blocks bucket is a finite map
  from keys to values. \<open>Get\<close> answers nil for an absent key (and for the empty
  key, which the store never holds); \<open>Put\<close> refuses an empty key, an oversized
  key and an oversized value, as the bolt bucket does.
\<close>

type_synonym bucket = "bytes \<rightharpoonup> bytes"

definition MaxKeySize :: nat where
  "MaxKeySize = 32768"

definition MaxValueSize :: nat where
  "MaxValueSize = 2147483646"

definition Get :: "bucket \<Rightarrow> bytes \<Rightarrow> bytes option" where
  "Get b key = (if key = [] then None else b key)"

definition Put :: "bucket \<Rightarrow> bytes \<Rightarrow> bytes \<Rightarrow> error + bucket" where
  "Put b key val =
     (if length key = 0 then Inl ErrKeyRequired
      else if length key > MaxKeySize then Inl ErrKeyTooLarge
      else if length val > MaxValueSize then Inl ErrValueTooLarge
      else Inr (b(key \<mapsto> val)))"

subsection \<open>The chain object and the code it calls from other packages\<close>

text \<open>
  The \<^verbatim>\<open>Blockchain\<close> struct: the cached tip, the blocks bucket of the
  database, and the two orphan pools. The locks and the mining channel carry no data.
\<close>

record Blockchain =
  lastBlockHash :: bytes
  db :: bucket
  orphanBlocks :: "bytes \<rightharpoonup> Block"
  prevOrphanBlocks :: "bytes \<rightharpoonup> Block list"

text \<open>
  Modelled from the spec: the functions and the constant that
  \<^verbatim>\<open>blockchain.go\<close> uses from files outside the source tree are parameters of
  the model, collected in one record, so that every theorem holds for any of them.
  \<^item> \<open>BoltLastHashKey\<close>: the reserved key of the tip identifier;
  \<^item> \<open>SerializeBlock\<close>, \<open>DeserializeBlock\<close>: the block byte encoding;
  \<^item> \<open>IsCoinBase\<close>, \<open>Verify\<close>: coinbase detection and signature verification of
    the transaction model;
  \<^item> \<open>GetLastBlock\<close>: \<^verbatim>\<open>storage.GetLastBlock\<close>, a read of the store that
    returns the tip identifier and the tip's bytes (nil when absent), or an error;
  \<^item> \<open>SaveBlock\<close>: \<^verbatim>\<open>storage.SaveBlock\<close>, a write of the store that
    returns the new store, or an error and leaves the store as it was;
  \<^item> \<open>NewBlock\<close>: the proof-of-work search; it returns the solved block and
    \<open>True\<close>, or the partial block and \<open>False\<close> when the search was cancelled.
    Which of the two happens depends on the cancellation channel, so the outcome is
    a parameter.
\<close>

record collaborators =
  BoltLastHashKey :: bytes
  SerializeBlock :: "Block \<Rightarrow> bytes"
  DeserializeBlock :: "bytes \<Rightarrow> Block"
  IsCoinBase :: "Transaction \<Rightarrow> bool"
  Verify :: "Transaction \<Rightarrow> (bytes \<rightharpoonup> Transaction) \<Rightarrow> bool"
  GetLastBlock :: "bucket \<Rightarrow> error + (bytes \<times> bytes option)"
  SaveBlock :: "bucket \<Rightarrow> bytes \<Rightarrow> bytes \<Rightarrow> error + bucket"
  NewBlock :: "Transaction list \<Rightarrow> bytes \<Rightarrow> int32 \<Rightarrow> Block \<times> bool"

section \<open>AddBlock\<close>

text \<open>
  \<^verbatim>\<open>Blockchain.AddBlock\<close>. The closure runs inside one store transaction;
  \<^verbatim>\<open>log.Panic\<close> inside it ends the call with \<open>Inl\<close>. The best height
  is read after the block has been put, from the tip key and the bytes stored under
  the identifier it holds; a missing tip block gives best height 0. The comparison
  \<^verbatim>\<open>block.Height >= bestHeight\<close> is on signed 32-bit numbers.
\<close>

definition AddBlock :: "collaborators \<Rightarrow> Blockchain \<Rightarrow> Block \<Rightarrow> error + Blockchain" where
  "AddBlock E bc block =
     (let b = db bc in
      case Get b (Hash block) of
        Some blockInDb \<Rightarrow> Inr bc
      | None \<Rightarrow>
          (case Put b (Hash block) (SerializeBlock E block) of
             Inl err \<Rightarrow> Inl (Panic err)
           | Inr b1 \<Rightarrow>
               (let lastHash = Get b1 (BoltLastHashKey E);
                    lastBlockData = (case lastHash of None \<Rightarrow> None | Some h \<Rightarrow> Get b1 h);
                    bestHeight = (case lastBlockData of
                                    None \<Rightarrow> 0
                                  | Some d \<Rightarrow> Height (DeserializeBlock E d))
                in if sint bestHeight \<le> sint (Height block)
                   then (case Put b1 (BoltLastHashKey E) (Hash block) of
                           Inl err \<Rightarrow> Inl (Panic err)
                         | Inr b2 \<Rightarrow> Inr (bc\<lparr>db := b2, lastBlockHash := Hash block\<rparr>))
                   else Inr (bc\<lparr>db := b1\<rparr>))))"

text \<open>
  The best height of a store as \<^verbatim>\<open>AddBlock\<close> reads it: the height of the
  block stored under the identifier that the tip key holds, 0 when there is none.
\<close>

definition storedBestHeight :: "collaborators \<Rightarrow> bucket \<Rightarrow> int32" where
  "storedBestHeight E b =
     (case (case Get b (BoltLastHashKey E) of None \<Rightarrow> None | Some h \<Rightarrow> Get b h) of
        None \<Rightarrow> 0
      | Some d \<Rightarrow> Height (DeserializeBlock E d))"

text \<open>The conditions under which the store accepts a write.\<close>

definition put_ok :: "bytes \<Rightarrow> bytes \<Rightarrow> bool" where
  "put_ok key val = (key \<noteq> [] \<and> length key \<le> MaxKeySize \<and> length val \<le> MaxValueSize)"

section \<open>The chain iterator\<close>

text \<open>
  Modelled from the spec: the \<^verbatim>\<open>BlockchainIterator\<close> (its file is outside
  the source tree) holds a position and the database. \<^verbatim>\<open>Next\<close> "returns
  the block at the iterator's current position and advances the position to that
  block's parent; returns nil/terminal once genesis (empty prevHash) has been
  returned". \<^verbatim>\<open>LocationHash\<close> "repositions the iterator to start traversal
  at the given hash", and "fails if the hash is absent from the store". A position
  with no stored block is answered with nil.
\<close>

record BlockchainIterator =
  currentHash :: bytes
  iter_db :: bucket

definition Next :: "collaborators \<Rightarrow> BlockchainIterator \<Rightarrow> Block option \<times> BlockchainIterator" where
  "Next E bci =
     (case Get (iter_db bci) (currentHash bci) of
        None \<Rightarrow> (None, bci)
      | Some encodedBlock \<Rightarrow>
          (let block = DeserializeBlock E encodedBlock
           in (Some block, bci\<lparr>currentHash := PrevBlockHash block\<rparr>)))"

definition LocationHash :: "BlockchainIterator \<Rightarrow> bytes \<Rightarrow> error + BlockchainIterator" where
  "LocationHash bci h =
     (case Get (iter_db bci) h of
        None \<Rightarrow> Inl ErrorBlockNotFount
      | Some _ \<Rightarrow> Inr (bci\<lparr>currentHash := h\<rparr>))"

text \<open>\<^verbatim>\<open>Blockchain.Iterator\<close>: a fresh iterator at the cached tip.\<close>

definition Iterator :: "Blockchain \<Rightarrow> BlockchainIterator" where
  "Iterator bc = \<lparr>currentHash = lastBlockHash bc, iter_db = db bc\<rparr>"

section \<open>FindTransaction and VerifyTransaction\<close>

text \<open>
  The loops over the chain end only when a block with an empty
  \<^verbatim>\<open>PrevBlockHash\<close> (or nil) is met, which a store with a cycle of parent
  links never yields. Each such loop takes fuel, one unit per iteration, and answers
  \<open>None\<close> when the fuel is used up; \<open>Some\<close> holds what the source returns
  (\<open>Inr\<close>) or the error or panic it ends with (\<open>Inl\<close>).
\<close>

fun FindTransaction_loop ::
  "collaborators \<Rightarrow> nat \<Rightarrow> BlockchainIterator \<Rightarrow> bytes \<Rightarrow> (error + Transaction) option" where
  "FindTransaction_loop E 0 bci txid = None"
| "FindTransaction_loop E (Suc fuel) bci txid =
     (case Next E bci of
        (None, bci') \<Rightarrow> Some (Inl ErrorNotFoundTransaction)
      | (Some block, bci') \<Rightarrow>
          (case find (\<lambda>tx. ID tx = txid) (Transactions block) of
             Some tx \<Rightarrow> Some (Inr tx)
           | None \<Rightarrow>
               if length (PrevBlockHash block) = 0
               then Some (Inl ErrorNotFoundTransaction)
               else FindTransaction_loop E fuel bci' txid))"

definition FindTransaction ::
  "collaborators \<Rightarrow> nat \<Rightarrow> Blockchain \<Rightarrow> bytes \<Rightarrow> (error + Transaction) option" where
  "FindTransaction E fuel bc txid = FindTransaction_loop E fuel (Iterator bc) txid"

text \<open>
  The loop of \<^verbatim>\<open>VerifyTransaction\<close> over the inputs: each referenced
  transaction is looked up in the chain, a failed lookup is
  \<^verbatim>\<open>log.Panic(err, ...)\<close>, a found transaction is stored under its identifier.
\<close>

fun collect_prevTXs ::
  "collaborators \<Rightarrow> nat \<Rightarrow> Blockchain \<Rightarrow> TXInput list \<Rightarrow> (bytes \<rightharpoonup> Transaction)
     \<Rightarrow> (error + (bytes \<rightharpoonup> Transaction)) option" where
  "collect_prevTXs E fuel bc [] prevTXs = Some (Inr prevTXs)"
| "collect_prevTXs E fuel bc (vin # vins) prevTXs =
     (case FindTransaction E fuel bc (OutHash (PreviousOutPoint vin)) of
        None \<Rightarrow> None
      | Some (Inl err) \<Rightarrow> Some (Inl (Panic err))
      | Some (Inr prevTX) \<Rightarrow> collect_prevTXs E fuel bc vins (prevTXs(ID prevTX \<mapsto> prevTX)))"

definition VerifyTransaction ::
  "collaborators \<Rightarrow> nat \<Rightarrow> Blockchain \<Rightarrow> Transaction \<Rightarrow> (error + bool) option" where
  "VerifyTransaction E fuel bc tx =
     (if IsCoinBase E tx then Some (Inr True)
      else (case collect_prevTXs E fuel bc (Inputs tx) Map.empty of
              None \<Rightarrow> None
            | Some (Inl err) \<Rightarrow> Some (Inl err)
            | Some (Inr prevTXs) \<Rightarrow> Some (Inr (Verify E tx prevTXs))))"

section \<open>MineBlock and GetBestHeight\<close>

text \<open>The first loop of \<^verbatim>\<open>MineBlock\<close>: every transaction is verified in turn.\<close>

fun verify_transactions ::
  "collaborators \<Rightarrow> nat \<Rightarrow> Blockchain \<Rightarrow> Transaction list \<Rightarrow> (error + unit) option" where
  "verify_transactions E fuel bc [] = Some (Inr ())"
| "verify_transactions E fuel bc (tx # txs) =
     (case VerifyTransaction E fuel bc tx of
        None \<Rightarrow> None
      | Some (Inl err) \<Rightarrow> Some (Inl err)
      | Some (Inr ok) \<Rightarrow>
          if ok \<noteq> True then Some (Inl PanicInvalidTransaction)
          else verify_transactions E fuel bc txs)"

text \<open>A slice that may be nil, handed to a function that reads its content.\<close>

definition slice_bytes :: "bytes option \<Rightarrow> bytes" where
  "slice_bytes d = (case d of None \<Rightarrow> [] | Some x \<Rightarrow> x)"

text \<open>
  \<^verbatim>\<open>Blockchain.MineBlock\<close>. The result holds the chain object after the call
  and the two returned values; a nil block pointer is \<open>None\<close>.
\<close>

definition MineBlock ::
  "collaborators \<Rightarrow> nat \<Rightarrow> Blockchain \<Rightarrow> Transaction list
     \<Rightarrow> (error + Blockchain \<times> Block option \<times> bool) option" where
  "MineBlock E fuel bc transactions =
     (case verify_transactions E fuel bc transactions of
        None \<Rightarrow> None
      | Some (Inl err) \<Rightarrow> Some (Inl err)
      | Some (Inr _) \<Rightarrow>
          (case GetLastBlock E (db bc) of
             Inl err \<Rightarrow> Some (Inl (Panic err))
           | Inr (lastHash, lastBlockData) \<Rightarrow>
               (let lastBlock = DeserializeBlock E (slice_bytes lastBlockData);
                    lastHeight = Height lastBlock;
                    (newBlock, isSolve) = NewBlock E transactions lastHash (lastHeight + 1)
                in if \<not> isSolve then Some (Inr (bc, Some newBlock, isSolve))
                   else (case SaveBlock E (db bc) (Hash newBlock) (SerializeBlock E newBlock) of
                           Inl err \<Rightarrow> Some (Inr (bc, None, False))
                         | Inr db' \<Rightarrow>
                             Some (Inr (bc\<lparr>db := db', lastBlockHash := Hash newBlock\<rparr>,
                                        Some newBlock, isSolve))))))"

text \<open>\<^verbatim>\<open>Blockchain.GetBestHeight\<close>.\<close>

definition GetBestHeight :: "collaborators \<Rightarrow> Blockchain \<Rightarrow> int32" where
  "GetBestHeight E bc =
     (case GetLastBlock E (db bc) of
        Inl err \<Rightarrow> 0
      | Inr (lastHash, lastBlockData) \<Rightarrow>
          (case lastBlockData of
             None \<Rightarrow> 0
           | Some d \<Rightarrow> Height (DeserializeBlock E d)))"

section \<open>FindUTXO\<close>

text \<open>
  The two maps of \<^verbatim>\<open>FindUTXO\<close>: the unspent outputs found so far, and the
  output indices seen as spent, both keyed by transaction identifier. A missing key
  reads as the nil slice.
\<close>

type_synonym utxo_map = "bytes \<rightharpoonup> TXOutput list"
type_synonym spent_map = "bytes \<rightharpoonup> int list"

definition entries :: "(bytes \<rightharpoonup> 'a list) \<Rightarrow> bytes \<Rightarrow> 'a list" where
  "entries m k = (case m k of None \<Rightarrow> [] | Some xs \<Rightarrow> xs)"

text \<open>
  The loop labelled \<^verbatim>\<open>Outputs\<close>: an output whose index is already in
  \<^verbatim>\<open>spentTXOs[txID]\<close> is skipped, any other is appended to
  \<^verbatim>\<open>UTXO[txID]\<close>.
\<close>

fun scan_outputs :: "spent_map \<Rightarrow> bytes \<Rightarrow> int \<Rightarrow> TXOutput list \<Rightarrow> utxo_map \<Rightarrow> utxo_map" where
  "scan_outputs spentTXOs txID outIdx [] UTXO = UTXO"
| "scan_outputs spentTXOs txID outIdx (out # outs) UTXO =
     scan_outputs spentTXOs txID (outIdx + 1) outs
       (if outIdx \<in> set (entries spentTXOs txID) then UTXO
        else UTXO(txID \<mapsto> entries UTXO txID @ [out]))"

text \<open>The loop over the inputs of a transaction that is not a coinbase.\<close>

fun record_inputs :: "TXInput list \<Rightarrow> spent_map \<Rightarrow> spent_map" where
  "record_inputs [] spentTXOs = spentTXOs"
| "record_inputs (vin # vins) spentTXOs =
     (let inTxID = OutHash (PreviousOutPoint vin)
      in record_inputs vins
           (spentTXOs(inTxID \<mapsto> entries spentTXOs inTxID @ [Index (PreviousOutPoint vin)])))"

text \<open>The body of the loop over the transactions of one block.\<close>

definition scan_tx :: "collaborators \<Rightarrow> Transaction \<Rightarrow> utxo_map \<times> spent_map \<Rightarrow> utxo_map \<times> spent_map" where
  "scan_tx E tx st =
     (let UTXO = scan_outputs (snd st) (ID tx) 0 (Outputs tx) (fst st);
          spentTXOs = (if IsCoinBase E tx = False then record_inputs (Inputs tx) (snd st)
                       else snd st)
      in (UTXO, spentTXOs))"

fun scan_transactions ::
  "collaborators \<Rightarrow> Transaction list \<Rightarrow> utxo_map \<times> spent_map \<Rightarrow> utxo_map \<times> spent_map" where
  "scan_transactions E [] st = st"
| "scan_transactions E (tx # txs) st = scan_transactions E txs (scan_tx E tx st)"

text \<open>
  The outer loop. \<^verbatim>\<open>FindUTXO\<close> reads \<^verbatim>\<open>block.Transactions\<close> without a
  nil test, so a nil block ends the call with a panic.
\<close>

fun FindUTXO_loop ::
  "collaborators \<Rightarrow> nat \<Rightarrow> BlockchainIterator \<Rightarrow> utxo_map \<times> spent_map \<Rightarrow> (error + utxo_map) option" where
  "FindUTXO_loop E 0 bci st = None"
| "FindUTXO_loop E (Suc fuel) bci st =
     (case Next E bci of
        (None, bci') \<Rightarrow> Some (Inl PanicNilBlock)
      | (Some block, bci') \<Rightarrow>
          (let st' = scan_transactions E (Transactions block) st
           in if length (PrevBlockHash block) = 0 then Some (Inr (fst st'))
              else FindUTXO_loop E fuel bci' st'))"

definition FindUTXO :: "collaborators \<Rightarrow> nat \<Rightarrow> Blockchain \<Rightarrow> (error + utxo_map) option" where
  "FindUTXO E fuel bc = FindUTXO_loop E fuel (Iterator bc) (Map.empty, Map.empty)"

section \<open>GetBlockHashes\<close>

text \<open>
  The loop of \<^verbatim>\<open>GetBlockHashes\<close>, with the slice of hashes collected so far
  and the counter. \<^verbatim>\<open>block.GetHash()\<close> is read without a nil test.
\<close>

fun GetBlockHashes_loop ::
  "collaborators \<Rightarrow> nat \<Rightarrow> BlockchainIterator \<Rightarrow> bytes \<Rightarrow> int \<Rightarrow> bytes list \<Rightarrow> int
     \<Rightarrow> (error + bytes list) option" where
  "GetBlockHashes_loop E 0 bci stopHash maxNum blocks getCount = None"
| "GetBlockHashes_loop E (Suc fuel) bci stopHash maxNum blocks getCount =
     (case Next E bci of
        (None, bci') \<Rightarrow> Some (Inl PanicNilBlock)
      | (Some block, bci') \<Rightarrow>
          (let h = Hash block
           in if stopHash = h then Some (Inr blocks)
              else (let blocks' = blocks @ [h];
                        getCount' = getCount + 1
                    in if length (PrevBlockHash block) = 0 then Some (Inr blocks')
                       else if getCount' \<ge> maxNum then Some (Inr blocks')
                       else GetBlockHashes_loop E fuel bci' stopHash maxNum blocks' getCount')))"

definition GetBlockHashes ::
  "collaborators \<Rightarrow> nat \<Rightarrow> Blockchain \<Rightarrow> bytes \<Rightarrow> bytes \<Rightarrow> int \<Rightarrow> (error + bytes list) option" where
  "GetBlockHashes E fuel bc beginHash stopHash maxNum =
     (case LocationHash (Iterator bc) beginHash of
        Inl err \<Rightarrow> Some (Inl err)
      | Inr bci \<Rightarrow> GetBlockHashes_loop E fuel bci stopHash maxNum [] 0)"

section \<open>Chains in the store\<close>

text \<open>
  \<open>chain_from E b h bs\<close>: starting at identifier \<open>h\<close> and following the parent
  links of the blocks stored in \<open>b\<close>, the blocks met are exactly \<open>bs\<close>, the last of
  them with an empty parent link (genesis). The empty list is the chain of the empty
  identifier.
\<close>

fun chain_from :: "collaborators \<Rightarrow> bucket \<Rightarrow> bytes \<Rightarrow> Block list \<Rightarrow> bool" where
  "chain_from E b h [] = (h = [])"
| "chain_from E b h (block # bs) =
     (case Get b h of
        None \<Rightarrow> False
      | Some d \<Rightarrow> DeserializeBlock E d = block \<and> chain_from E b (PrevBlockHash block) bs)"

text \<open>All transactions of a chain in the order the scans meet them.\<close>

definition chain_txs :: "Block list \<Rightarrow> Transaction list" where
  "chain_txs bs = concat (map Transactions bs)"

section \<open>A concrete store\<close>

text \<open>
  A store with a chain of five blocks, used to run the functions above. Block
  identifiers are one byte long, the tip key is the byte of the letter l, and a block
  is stored as the byte \<open>0xB0\<close> followed by its identifier. Block 1 holds a coinbase
  transaction and a transaction that spends the only output of that coinbase; block 2
  holds a coinbase transaction and a transaction that spends the only output of the
  coinbase of genesis.
\<close>

definition ex_coinbase_in :: TXInput where
  "ex_coinbase_in = \<lparr>PreviousOutPoint = \<lparr>OutHash = [], Index = - 1\<rparr>, Signature = [], PublicKey = []\<rparr>"

definition ex_coinbase :: "8 word \<Rightarrow> Transaction" where
  "ex_coinbase n = \<lparr>ID = [0xC0, n], Inputs = [ex_coinbase_in],
                     Outputs = [\<lparr>Value = 10, LockingKey = [0xAA]\<rparr>]\<rparr>"

definition ex_spend :: Transaction where
  "ex_spend = \<lparr>ID = [0xD1],
               Inputs = [\<lparr>PreviousOutPoint = \<lparr>OutHash = [0xC0, 1], Index = 0\<rparr>,
                          Signature = [7], PublicKey = [0xAA]\<rparr>],
               Outputs = [\<lparr>Value = 10, LockingKey = [0xBB]\<rparr>]\<rparr>"

definition ex_spend0 :: Transaction where
  "ex_spend0 = \<lparr>ID = [0xD0],
                Inputs = [\<lparr>PreviousOutPoint = \<lparr>OutHash = [0xC0, 0], Index = 0\<rparr>,
                           Signature = [7], PublicKey = [0xAA]\<rparr>],
                Outputs = [\<lparr>Value = 10, LockingKey = [0xBB]\<rparr>]\<rparr>"

definition ex_genesis :: Block where
  "ex_genesis = \<lparr>Hash = [1], PrevBlockHash = [], Height = 0, Nonce = 0,
                 Transactions = [ex_coinbase 0]\<rparr>"

definition ex_block1 :: Block where
  "ex_block1 = \<lparr>Hash = [2], PrevBlockHash = [1], Height = 1, Nonce = 0,
                Transactions = [ex_coinbase 1, ex_spend]\<rparr>"

definition ex_block2 :: Block where
  "ex_block2 = \<lparr>Hash = [3], PrevBlockHash = [2], Height = 2, Nonce = 0,
                Transactions = [ex_coinbase 2, ex_spend0]\<rparr>"

definition ex_block3 :: Block where
  "ex_block3 = \<lparr>Hash = [4], PrevBlockHash = [3], Height = 3, Nonce = 0,
                Transactions = [ex_coinbase 3]\<rparr>"

definition ex_block4 :: Block where
  "ex_block4 = \<lparr>Hash = [5], PrevBlockHash = [4], Height = 4, Nonce = 0,
                Transactions = [ex_coinbase 4]\<rparr>"

text \<open>A block that competes with block 4: same parent, same height.\<close>

definition ex_rival :: Block where
  "ex_rival = \<lparr>Hash = [9], PrevBlockHash = [4], Height = 4, Nonce = 0,
               Transactions = [ex_coinbase 9]\<rparr>"

definition ex_serialize :: "Block \<Rightarrow> bytes" where
  "ex_serialize block = 0xB0 # Hash block"

definition ex_deserialize :: "bytes \<Rightarrow> Block" where
  "ex_deserialize d =
     (if d = [0xB0, 2] then ex_block1
      else if d = [0xB0, 3] then ex_block2
      else if d = [0xB0, 4] then ex_block3
      else if d = [0xB0, 5] then ex_block4
      else if d = [0xB0, 9] then ex_rival
      else ex_genesis)"

definition ex_key :: bytes where
  "ex_key = [0x6C]"

definition ex_db :: bucket where
  "ex_db = [[1] \<mapsto> [0xB0, 1], [2] \<mapsto> [0xB0, 2], [3] \<mapsto> [0xB0, 3], [4] \<mapsto> [0xB0, 4],
            [5] \<mapsto> [0xB0, 5], ex_key \<mapsto> [5]]"

text \<open>
  The collaborators of the concrete store: a coinbase has one input with an empty
  previous identifier; a transaction verifies when every input is signed and its
  prior transaction was found; the tip is read and written the way
  \<^verbatim>\<open>AddBlock\<close> does it; the proof-of-work search is cancelled.
\<close>

definition ex_GetLastBlock :: "bucket \<Rightarrow> error + (bytes \<times> bytes option)" where
  "ex_GetLastBlock b =
     (case Get b ex_key of
        None \<Rightarrow> Inr ([], None)
      | Some h \<Rightarrow> Inr (h, Get b h))"

definition ex_SaveBlock :: "bucket \<Rightarrow> bytes \<Rightarrow> bytes \<Rightarrow> error + bucket" where
  "ex_SaveBlock b h d =
     (case Put b h d of Inl err \<Rightarrow> Inl err | Inr b1 \<Rightarrow> Put b1 ex_key h)"

definition ex_candidate :: "Transaction list \<Rightarrow> bytes \<Rightarrow> int32 \<Rightarrow> Block" where
  "ex_candidate txs prev h =
     \<lparr>Hash = [6], PrevBlockHash = prev, Height = h, Nonce = 0, Transactions = txs\<rparr>"

definition ex_E :: collaborators where
  "ex_E = \<lparr>BoltLastHashKey = ex_key,
           SerializeBlock = ex_serialize,
           DeserializeBlock = ex_deserialize,
           IsCoinBase = (\<lambda>tx. length (Inputs tx) = 1
                          \<and> OutHash (PreviousOutPoint (hd (Inputs tx))) = []),
           Verify = (\<lambda>tx prevTXs.
                       list_all (\<lambda>vin. Signature vin \<noteq> []
                                   \<and> prevTXs (OutHash (PreviousOutPoint vin)) \<noteq> None)
                         (Inputs tx)),
           GetLastBlock = ex_GetLastBlock,
           SaveBlock = ex_SaveBlock,
           NewBlock = (\<lambda>txs prev h. (ex_candidate txs prev h, False))\<rparr>"

text \<open>The chain object with its tip at block 4.\<close>

definition ex_bc :: Blockchain where
  "ex_bc = \<lparr>lastBlockHash = [5], db = ex_db, orphanBlocks = Map.empty,
            prevOrphanBlocks = Map.empty\<rparr>"

text \<open>The blocks of the chain with tip block 4, as a scan from the tip meets them.\<close>

definition ex_chain :: "Block list" where
  "ex_chain = [ex_block4, ex_block3, ex_block2, ex_block1, ex_genesis]"

text \<open>
  Two transactions offered for mining: one that spends the coinbase of block 4 and is
  signed, one that spends the coinbase of genesis and carries no signature.
\<close>

definition ex_pay :: Transaction where
  "ex_pay = \<lparr>ID = [0xD3],
             Inputs = [\<lparr>PreviousOutPoint = \<lparr>OutHash = [0xC0, 4], Index = 0\<rparr>,
                        Signature = [7], PublicKey = [0xAA]\<rparr>],
             Outputs = [\<lparr>Value = 10, LockingKey = [0xBB]\<rparr>]\<rparr>"

definition ex_unsigned :: Transaction where
  "ex_unsigned = \<lparr>ID = [0xD2],
                  Inputs = [\<lparr>PreviousOutPoint = \<lparr>OutHash = [0xC0, 0], Index = 0\<rparr>,
                             Signature = [], PublicKey = [0xAA]\<rparr>],
                  Outputs = [\<lparr>Value = 10, LockingKey = [0xBB]\<rparr>]\<rparr>"

text \<open>
  Collaborators whose search is solved and whose block write fails, and collaborators
  whose read of the last block fails.
\<close>

definition ex_E_unsaved :: collaborators where
  "ex_E_unsaved = ex_E\<lparr>NewBlock := (\<lambda>txs prev h. (ex_candidate txs prev h, True)),
                        SaveBlock := (\<lambda>b h d. Inl ErrStorage)\<rparr>"

definition ex_E_unread :: collaborators where
  "ex_E_unread = ex_E\<lparr>GetLastBlock := (\<lambda>b. Inl ErrStorage)\<rparr>"

text \<open>A chain object over an empty store.\<close>

definition ex_empty :: Blockchain where
  "ex_empty = \<lparr>lastBlockHash = [], db = Map.empty, orphanBlocks = Map.empty,
               prevOrphanBlocks = Map.empty\<rparr>"

section \<open>Facts about the store and AddBlock\<close>

lemma Put_ok: "put_ok key val \<Longrightarrow> Put b key val = Inr (b(key \<mapsto> val))"
  by (simp add: Put_def put_ok_def)

lemma Get_update_same: "key \<noteq> [] \<Longrightarrow> Get (b(key \<mapsto> val)) key = Some val"
  by (simp add: Get_def)

lemma Get_update_other: "k \<noteq> key \<Longrightarrow> Get (b(key \<mapsto> val)) k = Get b k"
  by (simp add: Get_def)

lemma Put_Inr: "Put b key val = Inr b' \<Longrightarrow> key \<noteq> [] \<and> b' = b(key \<mapsto> val)"
  by (auto simp: Put_def split: if_splits)

lemma storedBestHeight_update:
  assumes "h \<noteq> BoltLastHashKey E" and "Get b (BoltLastHashKey E) \<noteq> Some h"
  shows "storedBestHeight E (b(h \<mapsto> d)) = storedBestHeight E b"
proof -
  have key: "Get (b(h \<mapsto> d)) (BoltLastHashKey E) = Get b (BoltLastHashKey E)"
    using assms(1) by (simp add: Get_update_other)
  show ?thesis
  proof (cases "Get b (BoltLastHashKey E)")
    case None
    then show ?thesis by (simp add: storedBestHeight_def key)
  next
    case (Some t)
    with assms(2) have "t \<noteq> h" by simp
    then have "Get (b(h \<mapsto> d)) t = Get b t" by (simp add: Get_update_other)
    with Some show ?thesis by (simp add: storedBestHeight_def key)
  qed
qed

lemma AddBlock_stored:
  "Get (db bc) (Hash block) = Some d \<Longrightarrow> AddBlock E bc block = Inr bc"
  by (simp add: AddBlock_def)

lemma AddBlock_fresh:
  assumes "Get (db bc) (Hash block) = None"
    and "put_ok (Hash block) (SerializeBlock E block)"
    and "put_ok (BoltLastHashKey E) (Hash block)"
  shows "AddBlock E bc block =
         Inr (if sint (storedBestHeight E ((db bc)(Hash block \<mapsto> SerializeBlock E block)))
                   \<le> sint (Height block)
              then bc\<lparr>db := (db bc)(Hash block \<mapsto> SerializeBlock E block,
                                     BoltLastHashKey E \<mapsto> Hash block),
                      lastBlockHash := Hash block\<rparr>
              else bc\<lparr>db := (db bc)(Hash block \<mapsto> SerializeBlock E block)\<rparr>)"
  using assms by (simp add: AddBlock_def Put_ok storedBestHeight_def Let_def)

lemma AddBlock_Inr_stored:
  assumes "AddBlock E bc block = Inr bc'"
  shows "Get (db bc') (Hash block) \<noteq> None"
proof (cases "Get (db bc) (Hash block)")
  case (Some d)
  with assms show ?thesis by (simp add: AddBlock_def)
next
  case None
  from assms None obtain b1 where p1: "Put (db bc) (Hash block) (SerializeBlock E block) = Inr b1"
    by (auto simp: AddBlock_def split: sum.splits)
  then have ne: "Hash block \<noteq> []" and b1: "b1 = (db bc)(Hash block \<mapsto> SerializeBlock E block)"
    by (auto dest: Put_Inr)
  from assms None p1 have "db bc' = b1 \<or> (\<exists>b2. Put b1 (BoltLastHashKey E) (Hash block) = Inr b2 \<and> db bc' = b2)"
    by (auto simp: AddBlock_def Let_def split: sum.splits if_splits)
  then show ?thesis
  proof
    assume "db bc' = b1"
    with ne b1 show ?thesis by (simp add: Get_def)
  next
    assume "\<exists>b2. Put b1 (BoltLastHashKey E) (Hash block) = Inr b2 \<and> db bc' = b2"
    then obtain b2 where "Put b1 (BoltLastHashKey E) (Hash block) = Inr b2" "db bc' = b2" by blast
    then have "db bc' = b1(BoltLastHashKey E \<mapsto> Hash block)" by (auto dest: Put_Inr)
    with ne b1 show ?thesis by (simp add: Get_def)
  qed
qed

text \<open>
  Claim C2. \<^verbatim>\<open>AddBlock\<close> is idempotent: when the block's identifier is
  already in the store the call changes nothing, and whenever a call returns, a
  second call with the same block returns the very chain object the first one left
  (same store, same cached tip).
\<close>

theorem AddBlock_idempotent:
  "(Get (db bc) (Hash block) \<noteq> None \<longrightarrow> AddBlock E bc block = Inr bc)
   \<and> (\<forall>bc'. AddBlock E bc block = Inr bc' \<longrightarrow> AddBlock E bc' block = Inr bc')"
proof (intro conjI allI impI)
  assume "Get (db bc) (Hash block) \<noteq> None"
  then show "AddBlock E bc block = Inr bc" by (auto simp: AddBlock_stored)
next
  fix bc' assume "AddBlock E bc block = Inr bc'"
  then have "Get (db bc') (Hash block) \<noteq> None" by (rule AddBlock_Inr_stored)
  then show "AddBlock E bc' block = Inr bc'" by (auto simp: AddBlock_stored)
qed

text \<open>
  Claim C1. A call of \<^verbatim>\<open>AddBlock\<close> with a block whose identifier is not in the
  store, and whose writes the store accepts, returns; afterwards the block's bytes are
  stored under its identifier, and the tip key holds the block's identifier if and
  only if the block's height is at least the best height read from the store. When it
  is smaller, tip key and cached tip are as before. A block of the same height as the
  tip therefore replaces the tip. The identifier is assumed to differ from the tip key
  and from the identifier the tip key holds.
\<close>

theorem AddBlock_new_block:
  assumes fresh: "Get (db bc) (Hash block) = None"
    and ok1: "put_ok (Hash block) (SerializeBlock E block)"
    and ok2: "put_ok (BoltLastHashKey E) (Hash block)"
    and nk: "Hash block \<noteq> BoltLastHashKey E"
    and nd: "Get (db bc) (BoltLastHashKey E) \<noteq> Some (Hash block)"
  shows "\<exists>bc'. AddBlock E bc block = Inr bc'
           \<and> Get (db bc') (Hash block) = Some (SerializeBlock E block)
           \<and> ((Get (db bc') (BoltLastHashKey E) = Some (Hash block))
                = (sint (storedBestHeight E (db bc)) \<le> sint (Height block)))
           \<and> ((lastBlockHash bc' = Hash block \<and> Get (db bc') (BoltLastHashKey E) = Some (Hash block))
                \<or> (sint (Height block) < sint (storedBestHeight E (db bc))
                    \<and> lastBlockHash bc' = lastBlockHash bc
                    \<and> Get (db bc') (BoltLastHashKey E) = Get (db bc) (BoltLastHashKey E)))
           \<and> (Height block = storedBestHeight E (db bc)
                \<longrightarrow> Get (db bc') (BoltLastHashKey E) = Some (Hash block))"
proof -
  have ne: "Hash block \<noteq> []" and kne: "BoltLastHashKey E \<noteq> []"
    using ok1 ok2 by (simp_all add: put_ok_def)
  have best: "storedBestHeight E ((db bc)(Hash block \<mapsto> SerializeBlock E block))
                = storedBestHeight E (db bc)"
    using nk nd by (rule storedBestHeight_update)
  show ?thesis
  proof (cases "sint (storedBestHeight E (db bc)) \<le> sint (Height block)")
    case True
    then have "AddBlock E bc block =
        Inr (bc\<lparr>db := (db bc)(Hash block \<mapsto> SerializeBlock E block,
                                BoltLastHashKey E \<mapsto> Hash block),
                 lastBlockHash := Hash block\<rparr>)"
      using AddBlock_fresh [OF fresh ok1 ok2] best by simp
    with True ne kne nk show ?thesis by (simp add: Get_def)
  next
    case False
    then have "AddBlock E bc block =
        Inr (bc\<lparr>db := (db bc)(Hash block \<mapsto> SerializeBlock E block)\<rparr>)"
      using AddBlock_fresh [OF fresh ok1 ok2] best by simp
    moreover have "Get ((db bc)(Hash block \<mapsto> SerializeBlock E block)) (BoltLastHashKey E)
                     = Get (db bc) (BoltLastHashKey E)"
      using nk by (simp add: Get_def)
    ultimately show ?thesis using False ne nd by (auto simp: Get_def)
  qed
qed

lemma ex_rival_fresh: "Get (db ex_bc) (Hash ex_rival) = None"
  by code_simp

lemma ex_rival_put_ok: "put_ok (Hash ex_rival) (SerializeBlock ex_E ex_rival)"
  by (simp add: put_ok_def MaxKeySize_def MaxValueSize_def ex_rival_def ex_E_def ex_serialize_def)

lemma ex_rival_tip_put_ok: "put_ok (BoltLastHashKey ex_E) (Hash ex_rival)"
  by (simp add: put_ok_def MaxKeySize_def MaxValueSize_def ex_rival_def ex_E_def ex_key_def)

lemma ex_rival_not_key: "Hash ex_rival \<noteq> BoltLastHashKey ex_E"
  by code_simp

lemma ex_rival_not_tip: "Get (db ex_bc) (BoltLastHashKey ex_E) \<noteq> Some (Hash ex_rival)"
  by code_simp

lemma ex_rival_height: "Height ex_rival = storedBestHeight ex_E (db ex_bc)"
  by code_simp

lemma ex_rival_added: "map_sum id lastBlockHash (AddBlock ex_E ex_bc ex_rival) = Inr [9]"
  by (simp add: AddBlock_fresh ex_rival_fresh ex_rival_put_ok ex_rival_tip_put_ok
        ex_rival_height [symmetric] storedBestHeight_update ex_rival_not_key ex_rival_not_tip)
     (simp add: ex_rival_def)

theorem AddBlock_new_block_witness:
  "Get (db ex_bc) (Hash ex_rival) = None
   \<and> put_ok (Hash ex_rival) (SerializeBlock ex_E ex_rival)
   \<and> put_ok (BoltLastHashKey ex_E) (Hash ex_rival)
   \<and> Hash ex_rival \<noteq> BoltLastHashKey ex_E
   \<and> Get (db ex_bc) (BoltLastHashKey ex_E) \<noteq> Some (Hash ex_rival)
   \<and> Height ex_rival = storedBestHeight ex_E (db ex_bc)
   \<and> (\<exists>bc'. AddBlock ex_E ex_bc ex_rival = Inr bc'
          \<and> Get (db bc') (Hash ex_rival) = Some (SerializeBlock ex_E ex_rival)
          \<and> Get (db bc') (BoltLastHashKey ex_E) = Some (Hash ex_rival))"
proof -
  from AddBlock_new_block [OF ex_rival_fresh ex_rival_put_ok ex_rival_tip_put_ok
      ex_rival_not_key ex_rival_not_tip] ex_rival_height
  have "\<exists>bc'. AddBlock ex_E ex_bc ex_rival = Inr bc'
          \<and> Get (db bc') (Hash ex_rival) = Some (SerializeBlock ex_E ex_rival)
          \<and> Get (db bc') (BoltLastHashKey ex_E) = Some (Hash ex_rival)"
    by blast
  with ex_rival_fresh ex_rival_put_ok ex_rival_tip_put_ok ex_rival_not_key ex_rival_not_tip
    ex_rival_height
  show ?thesis by blast
qed

theorem AddBlock_idempotent_witness:
  "Get (db ex_bc) (Hash ex_block4) \<noteq> None
   \<and> AddBlock ex_E ex_bc ex_block4 = Inr ex_bc
   \<and> (\<exists>bc'. AddBlock ex_E ex_bc ex_rival = Inr bc' \<and> lastBlockHash bc' = [9]
          \<and> AddBlock ex_E bc' ex_rival = Inr bc')"
proof -
  have h1: "Get (db ex_bc) (Hash ex_block4) \<noteq> None" by code_simp
  have a: "AddBlock ex_E ex_bc ex_block4 = Inr ex_bc"
    using AddBlock_idempotent [of ex_bc ex_block4 ex_E] h1 by blast
  obtain bc' where b: "AddBlock ex_E ex_bc ex_rival = Inr bc'" and c: "lastBlockHash bc' = [9]"
    using ex_rival_added by (cases "AddBlock ex_E ex_bc ex_rival") auto
  from b have "AddBlock ex_E bc' ex_rival = Inr bc'"
    using AddBlock_idempotent [of ex_bc ex_rival ex_E] by blast
  with h1 a b c show ?thesis by blast
qed

section \<open>Scans of the chain, verification and mining\<close>

lemma find_append_case:
  "find P (xs @ ys) = (case find P xs of None \<Rightarrow> find P ys | Some x \<Rightarrow> Some x)"
  by (induction xs) auto

lemma chain_from_empty_hash: "chain_from E b [] bs = (bs = [])"
  by (cases bs) (simp_all add: Get_def)

lemma Next_chain:
  assumes "chain_from E b h (block # bs)"
  shows "Next E \<lparr>currentHash = h, iter_db = b\<rparr>
           = (Some block, \<lparr>currentHash = PrevBlockHash block, iter_db = b\<rparr>)"
  using assms by (auto simp: Next_def split: option.splits)

lemma Next_end: "Next E \<lparr>currentHash = [], iter_db = b\<rparr> = (None, \<lparr>currentHash = [], iter_db = b\<rparr>)"
  by (simp add: Next_def Get_def)

lemma chain_from_tail: "chain_from E b h (block # bs) \<Longrightarrow> chain_from E b (PrevBlockHash block) bs"
  by (auto split: option.splits)

lemma FindTransaction_loop_chain:
  assumes "chain_from E b h bs" and "length bs < fuel"
  shows "FindTransaction_loop E fuel \<lparr>currentHash = h, iter_db = b\<rparr> txid =
           Some (case find (\<lambda>tx. ID tx = txid) (chain_txs bs) of
                   None \<Rightarrow> Inl ErrorNotFoundTransaction
                 | Some tx \<Rightarrow> Inr tx)"
  using assms
proof (induction bs arbitrary: h fuel)
  case Nil
  then obtain n where "fuel = Suc n" by (cases fuel) auto
  with Nil show ?case by (simp add: Next_end chain_txs_def)
next
  case (Cons block bs)
  then obtain n where fuel: "fuel = Suc n" and n: "length bs < n" by (cases fuel) auto
  note nxt = Next_chain [OF Cons.prems(1)]
  note tl = chain_from_tail [OF Cons.prems(1)]
  show ?case
  proof (cases "find (\<lambda>tx. ID tx = txid) (Transactions block)")
    case (Some tx)
    then show ?thesis by (simp add: fuel nxt chain_txs_def find_append_case)
  next
    case None
    show ?thesis
    proof (cases "PrevBlockHash block = []")
      case True
      with tl have "bs = []" by (simp add: chain_from_empty_hash)
      with None True show ?thesis by (simp add: fuel nxt chain_txs_def)
    next
      case False
      have "FindTransaction_loop E n \<lparr>currentHash = PrevBlockHash block, iter_db = b\<rparr> txid =
              Some (case find (\<lambda>tx. ID tx = txid) (chain_txs bs) of
                      None \<Rightarrow> Inl ErrorNotFoundTransaction
                    | Some tx \<Rightarrow> Inr tx)"
        using tl n by (rule Cons.IH)
      with None False show ?thesis
        by (simp add: fuel nxt chain_txs_def find_append_case)
    qed
  qed
qed

text \<open>
  Claim C7. Let the blocks reachable from the cached tip be \<open>bs\<close>, tip first and
  genesis last. With fuel for one iteration per block, \<^verbatim>\<open>FindTransaction\<close>
  returns the first transaction with the given identifier in the order tip to
  genesis (and list order inside a block), and it ends with
  \<^verbatim>\<open>ErrorNotFoundTransaction\<close> exactly when no block of \<open>bs\<close> holds a transaction
  with that identifier. The orphan pools do not enter the result.
\<close>

theorem FindTransaction_chain:
  assumes "chain_from E (db bc) (lastBlockHash bc) bs" and "length bs < fuel"
  shows "FindTransaction E fuel bc txid =
           Some (case find (\<lambda>tx. ID tx = txid) (chain_txs bs) of
                   None \<Rightarrow> Inl ErrorNotFoundTransaction
                 | Some tx \<Rightarrow> Inr tx)
         \<and> ((FindTransaction E fuel bc txid = Some (Inl ErrorNotFoundTransaction))
              = (\<not> (\<exists>block \<in> set bs. \<exists>tx \<in> set (Transactions block). ID tx = txid)))
         \<and> FindTransaction E fuel (bc\<lparr>orphanBlocks := ob, prevOrphanBlocks := pob\<rparr>) txid
             = FindTransaction E fuel bc txid"
proof -
  have eq: "FindTransaction E fuel bc txid =
           Some (case find (\<lambda>tx. ID tx = txid) (chain_txs bs) of
                   None \<Rightarrow> Inl ErrorNotFoundTransaction
                 | Some tx \<Rightarrow> Inr tx)"
    using assms by (simp add: FindTransaction_def Iterator_def FindTransaction_loop_chain)
  have none: "(find (\<lambda>tx. ID tx = txid) (chain_txs bs) = None)
          = (\<not> (\<exists>block \<in> set bs. \<exists>tx \<in> set (Transactions block). ID tx = txid))"
    by (auto simp: find_None_iff chain_txs_def)
  have iff: "(FindTransaction E fuel bc txid = Some (Inl ErrorNotFoundTransaction))
              = (\<not> (\<exists>block \<in> set bs. \<exists>tx \<in> set (Transactions block). ID tx = txid))"
  proof (cases "find (\<lambda>tx. ID tx = txid) (chain_txs bs)")
    case None
    with none show ?thesis by (simp add: eq)
  next
    case (Some tx)
    with none show ?thesis by (simp add: eq)
  qed
  have "FindTransaction E fuel (bc\<lparr>orphanBlocks := ob, prevOrphanBlocks := pob\<rparr>) txid
             = FindTransaction E fuel bc txid"
    by (simp add: FindTransaction_def Iterator_def)
  with eq iff show ?thesis by blast
qed

text \<open>
  Claim C8. For a coinbase transaction \<^verbatim>\<open>VerifyTransaction\<close> returns true,
  whatever the chain object holds and with no iteration of the chain scan (any fuel,
  also none).
\<close>

theorem VerifyTransaction_coinbase:
  "IsCoinBase E tx \<Longrightarrow> VerifyTransaction E fuel bc tx = Some (Inr True)"
  by (simp add: VerifyTransaction_def)

text \<open>
  Claim C10. \<^verbatim>\<open>GetBestHeight\<close> returns 0 when the read of the last block ends
  with an error, as it does when the read finds no block: the two cases give the same
  answer.
\<close>

theorem GetBestHeight_read_failure:
  "(\<forall>err. GetLastBlock E (db bc) = Inl err \<longrightarrow> GetBestHeight E bc = 0)
   \<and> (\<forall>lastHash. GetLastBlock E (db bc) = Inr (lastHash, None) \<longrightarrow> GetBestHeight E bc = 0)"
  by (simp add: GetBestHeight_def)


lemma verify_transactions_Inr:
  "verify_transactions E fuel bc txs = Some (Inr u)
   \<Longrightarrow> \<forall>t \<in> set txs. VerifyTransaction E fuel bc t = Some (Inr True)"
  by (induction txs) (auto split: option.splits sum.splits if_splits)

lemma verify_transactions_all:
  "\<forall>t \<in> set txs. VerifyTransaction E fuel bc t = Some (Inr True)
   \<Longrightarrow> verify_transactions E fuel bc txs = Some (Inr ())"
  by (induction txs) auto

lemma verify_transactions_invalid:
  assumes "\<forall>u \<in> set txs. \<exists>r. VerifyTransaction E fuel bc u = Some (Inr r)"
    and "t \<in> set txs" and "VerifyTransaction E fuel bc t = Some (Inr False)"
  shows "verify_transactions E fuel bc txs = Some (Inl PanicInvalidTransaction)"
  using assms
proof (induction txs)
  case Nil
  then show ?case by simp
next
  case (Cons a txs)
  from Cons.prems(1) obtain r where r: "VerifyTransaction E fuel bc a = Some (Inr r)" by auto
  show ?case
  proof (cases r)
    case False
    with r show ?thesis by simp
  next
    case True
    with r Cons.prems have "t \<in> set txs" by auto
    with Cons.IH Cons.prems have "verify_transactions E fuel bc txs = Some (Inl PanicInvalidTransaction)"
      by auto
    with r True show ?thesis by simp
  qed
qed

lemma MineBlock_Inr_verified:
  "MineBlock E fuel bc txs = Some (Inr r) \<Longrightarrow> \<exists>u. verify_transactions E fuel bc txs = Some (Inr u)"
  by (auto simp: MineBlock_def split: option.splits sum.splits)

lemma MineBlock_not_verified:
  "verify_transactions E fuel bc txs = Some (Inl err) \<Longrightarrow> MineBlock E fuel bc txs = Some (Inl err)"
  by (simp add: MineBlock_def)

text \<open>
  Claim C6. \<^verbatim>\<open>MineBlock\<close> verifies the transactions before anything else. When
  one of them fails verification the call never returns a block, whatever the tip read
  and the search would give; when every verification returns a verdict, the call ends
  in the panic for an invalid transaction.
\<close>

theorem MineBlock_invalid_transaction_fatal:
  assumes "t \<in> set txs" and "VerifyTransaction E fuel bc t = Some (Inr False)"
  shows "(\<forall>r. MineBlock E fuel bc txs \<noteq> Some (Inr r))
         \<and> ((\<forall>u \<in> set txs. \<exists>r. VerifyTransaction E fuel bc u = Some (Inr r))
              \<longrightarrow> MineBlock E fuel bc txs = Some (Inl PanicInvalidTransaction))"
proof (intro conjI allI impI)
  fix r
  show "MineBlock E fuel bc txs \<noteq> Some (Inr r)"
  proof
    assume "MineBlock E fuel bc txs = Some (Inr r)"
    then obtain u where "verify_transactions E fuel bc txs = Some (Inr u)"
      by (auto dest: MineBlock_Inr_verified)
    then have "VerifyTransaction E fuel bc t = Some (Inr True)"
      using assms(1) by (auto dest: verify_transactions_Inr)
    with assms(2) show False by simp
  qed
next
  assume "\<forall>u \<in> set txs. \<exists>r. VerifyTransaction E fuel bc u = Some (Inr r)"
  then have "verify_transactions E fuel bc txs = Some (Inl PanicInvalidTransaction)"
    using assms by (rule verify_transactions_invalid)
  then show "MineBlock E fuel bc txs = Some (Inl PanicInvalidTransaction)"
    by (rule MineBlock_not_verified)
qed

lemma MineBlock_cancelled:
  assumes "verify_transactions E fuel bc txs = Some (Inr u)"
    and "GetLastBlock E (db bc) = Inr (lastHash, lastBlockData)"
    and "NewBlock E txs lastHash (Height (DeserializeBlock E (slice_bytes lastBlockData)) + 1)
           = (newBlock, False)"
  shows "MineBlock E fuel bc txs = Some (Inr (bc, Some newBlock, False))"
  using assms by (simp add: MineBlock_def)

lemma MineBlock_solved:
  assumes "verify_transactions E fuel bc txs = Some (Inr u)"
    and "GetLastBlock E (db bc) = Inr (lastHash, lastBlockData)"
    and "NewBlock E txs lastHash (Height (DeserializeBlock E (slice_bytes lastBlockData)) + 1)
           = (newBlock, True)"
  shows "MineBlock E fuel bc txs =
           (case SaveBlock E (db bc) (Hash newBlock) (SerializeBlock E newBlock) of
              Inl err \<Rightarrow> Some (Inr (bc, None, False))
            | Inr db' \<Rightarrow> Some (Inr (bc\<lparr>db := db', lastBlockHash := Hash newBlock\<rparr>,
                                     Some newBlock, True)))"
  using assms by (simp add: MineBlock_def)

text \<open>
  Claim C4. When the tip read succeeds and the proof-of-work search at that tip is
  cancelled, a call of \<^verbatim>\<open>MineBlock\<close> whose transactions verify returns with the
  chain object it was given, and every returning call leaves store, cached tip and
  best height as they were and answers \<open>solved = False\<close>.
\<close>

theorem MineBlock_cancelled_persists_nothing:
  assumes "GetLastBlock E (db bc) = Inr (lastHash, lastBlockData)"
    and "snd (NewBlock E txs lastHash (Height (DeserializeBlock E (slice_bytes lastBlockData)) + 1))
           = False"
  shows "(verify_transactions E fuel bc txs = Some (Inr ())
            \<longrightarrow> (\<exists>blk. MineBlock E fuel bc txs = Some (Inr (bc, blk, False))))
         \<and> (\<forall>bc' blk solved. MineBlock E fuel bc txs = Some (Inr (bc', blk, solved))
              \<longrightarrow> db bc' = db bc \<and> lastBlockHash bc' = lastBlockHash bc
                  \<and> GetBestHeight E bc' = GetBestHeight E bc \<and> \<not> solved)"
proof -
  obtain newBlock where nb:
    "NewBlock E txs lastHash (Height (DeserializeBlock E (slice_bytes lastBlockData)) + 1)
       = (newBlock, False)"
    using assms(2) by (cases "NewBlock E txs lastHash (Height (DeserializeBlock E (slice_bytes lastBlockData)) + 1)") auto
  have a: "verify_transactions E fuel bc txs = Some (Inr ())
            \<longrightarrow> (\<exists>blk. MineBlock E fuel bc txs = Some (Inr (bc, blk, False)))"
    using MineBlock_cancelled [OF _ assms(1) nb] by blast
  have b: "\<forall>bc' blk solved. MineBlock E fuel bc txs = Some (Inr (bc', blk, solved))
              \<longrightarrow> db bc' = db bc \<and> lastBlockHash bc' = lastBlockHash bc
                  \<and> GetBestHeight E bc' = GetBestHeight E bc \<and> \<not> solved"
  proof (intro allI impI)
    fix bc' blk solved
    assume m: "MineBlock E fuel bc txs = Some (Inr (bc', blk, solved))"
    then obtain u where "verify_transactions E fuel bc txs = Some (Inr u)"
      by (auto dest: MineBlock_Inr_verified)
    then have "MineBlock E fuel bc txs = Some (Inr (bc, Some newBlock, False))"
      using assms(1) nb by (rule MineBlock_cancelled)
    with m have "bc' = bc" and "\<not> solved" by simp_all
    then show "db bc' = db bc \<and> lastBlockHash bc' = lastBlockHash bc
                  \<and> GetBestHeight E bc' = GetBestHeight E bc \<and> \<not> solved"
      by simp
  qed
  from a b show ?thesis by blast
qed

text \<open>
  Claim C9. After a cancelled search \<^verbatim>\<open>MineBlock\<close> returns the candidate block of
  the search, not nil, with \<open>False\<close>. It returns nil with \<open>False\<close> only when the
  search was solved and \<^verbatim>\<open>storage.SaveBlock\<close> failed on the solved block.
\<close>

theorem MineBlock_returned_block:
  "(\<forall>u lastHash lastBlockData newBlock.
       verify_transactions E fuel bc txs = Some (Inr u)
       \<and> GetLastBlock E (db bc) = Inr (lastHash, lastBlockData)
       \<and> NewBlock E txs lastHash (Height (DeserializeBlock E (slice_bytes lastBlockData)) + 1)
           = (newBlock, False)
       \<longrightarrow> MineBlock E fuel bc txs = Some (Inr (bc, Some newBlock, False)))
   \<and> (\<forall>bc' solved. MineBlock E fuel bc txs = Some (Inr (bc', None, solved))
        \<longrightarrow> (\<exists>lastHash lastBlockData newBlock err.
               GetLastBlock E (db bc) = Inr (lastHash, lastBlockData)
               \<and> NewBlock E txs lastHash (Height (DeserializeBlock E (slice_bytes lastBlockData)) + 1)
                   = (newBlock, True)
               \<and> SaveBlock E (db bc) (Hash newBlock) (SerializeBlock E newBlock) = Inl err
               \<and> \<not> solved \<and> bc' = bc))"
proof (intro conjI allI impI)
  fix u lastHash lastBlockData newBlock
  assume "verify_transactions E fuel bc txs = Some (Inr u)
       \<and> GetLastBlock E (db bc) = Inr (lastHash, lastBlockData)
       \<and> NewBlock E txs lastHash (Height (DeserializeBlock E (slice_bytes lastBlockData)) + 1)
           = (newBlock, False)"
  then show "MineBlock E fuel bc txs = Some (Inr (bc, Some newBlock, False))"
    by (auto intro: MineBlock_cancelled)
next
  fix bc' solved
  assume m: "MineBlock E fuel bc txs = Some (Inr (bc', None, solved))"
  then obtain u where v: "verify_transactions E fuel bc txs = Some (Inr u)"
    by (auto dest: MineBlock_Inr_verified)
  from m v obtain lastHash lastBlockData where g: "GetLastBlock E (db bc) = Inr (lastHash, lastBlockData)"
    by (auto simp: MineBlock_def split: sum.splits)
  obtain newBlock isSolve where n:
    "NewBlock E txs lastHash (Height (DeserializeBlock E (slice_bytes lastBlockData)) + 1)
       = (newBlock, isSolve)"
    by (cases "NewBlock E txs lastHash (Height (DeserializeBlock E (slice_bytes lastBlockData)) + 1)")
  have s: "isSolve"
  proof (rule ccontr)
    assume "\<not> isSolve"
    with n have "MineBlock E fuel bc txs = Some (Inr (bc, Some newBlock, False))"
      using v g by (auto intro: MineBlock_cancelled)
    with m show False by simp
  qed
  with n v g have r: "MineBlock E fuel bc txs =
           (case SaveBlock E (db bc) (Hash newBlock) (SerializeBlock E newBlock) of
              Inl err \<Rightarrow> Some (Inr (bc, None, False))
            | Inr db' \<Rightarrow> Some (Inr (bc\<lparr>db := db', lastBlockHash := Hash newBlock\<rparr>,
                                     Some newBlock, True)))"
    by (auto intro: MineBlock_solved)
  with m obtain err where "SaveBlock E (db bc) (Hash newBlock) (SerializeBlock E newBlock) = Inl err"
    and "\<not> solved" and "bc' = bc"
    by (cases "SaveBlock E (db bc) (Hash newBlock) (SerializeBlock E newBlock)") auto
  with g n s
  show "\<exists>lastHash lastBlockData newBlock err.
               GetLastBlock E (db bc) = Inr (lastHash, lastBlockData)
               \<and> NewBlock E txs lastHash (Height (DeserializeBlock E (slice_bytes lastBlockData)) + 1)
                   = (newBlock, True)
               \<and> SaveBlock E (db bc) (Hash newBlock) (SerializeBlock E newBlock) = Inl err
               \<and> \<not> solved \<and> bc' = bc"
    by auto
qed


lemma GetBlockHashes_loop_chain:
  assumes "chain_from E b h bs" and "bs \<noteq> []" and "length bs \<le> fuel"
  shows "GetBlockHashes_loop E fuel \<lparr>currentHash = h, iter_db = b\<rparr> stopHash maxNum blocks getCount =
           Some (Inr (blocks @ take (nat (max 1 (maxNum - getCount)))
                                 (takeWhile (\<lambda>x. x \<noteq> stopHash) (map Hash bs))))"
  using assms
proof (induction bs arbitrary: h fuel blocks getCount)
  case Nil
  then show ?case by simp
next
  case (Cons block bs)
  then obtain n where fuel: "fuel = Suc n" and n: "length bs \<le> n" by (cases fuel) auto
  note nxt = Next_chain [OF Cons.prems(1)]
  note tl = chain_from_tail [OF Cons.prems(1)]
  show ?case
  proof (cases "stopHash = Hash block")
    case True
    then show ?thesis by (simp add: fuel nxt)
  next
    case ns: False
    show ?thesis
    proof (cases "PrevBlockHash block = []")
      case True
      with tl have "bs = []" by (simp add: chain_from_empty_hash)
      with True ns show ?thesis by (simp add: fuel nxt Let_def)
    next
      case np: False
      with tl have ne: "bs \<noteq> []" by (auto simp: chain_from_empty_hash)
      show ?thesis
      proof (cases "maxNum \<le> getCount + 1")
        case True
        then have "nat (max 1 (maxNum - getCount)) = Suc 0" by simp
        with True ns np show ?thesis by (simp add: fuel nxt Let_def)
      next
        case False
        then have k: "nat (max 1 (maxNum - getCount)) = Suc (nat (max 1 (maxNum - (getCount + 1))))"
          by simp
        have "GetBlockHashes_loop E n \<lparr>currentHash = PrevBlockHash block, iter_db = b\<rparr>
                stopHash maxNum (blocks @ [Hash block]) (getCount + 1) =
              Some (Inr ((blocks @ [Hash block]) @ take (nat (max 1 (maxNum - (getCount + 1))))
                                 (takeWhile (\<lambda>x. x \<noteq> stopHash) (map Hash bs))))"
          using tl ne n by (rule Cons.IH)
        moreover have "nat (maxNum - getCount) = Suc (nat (maxNum - (getCount + 1)))"
          using False by arith
        ultimately show ?thesis using False ns np by (simp add: fuel nxt Let_def k)
      qed
    qed
  qed
qed

text \<open>
  What \<^verbatim>\<open>GetBlockHashes\<close> returns on a chain \<open>bs\<close> that starts at
  \<open>beginHash\<close>: the hashes of \<open>bs\<close> before the first one equal to \<open>stopHash\<close>, cut
  after \<open>maxNum\<close> hashes, but after one hash when \<open>maxNum\<close> is below 1.
\<close>

lemma GetBlockHashes_chain:
  assumes "chain_from E (db bc) beginHash bs" and "bs \<noteq> []" and "length bs \<le> fuel"
  shows "GetBlockHashes E fuel bc beginHash stopHash maxNum =
           Some (Inr (take (nat (max 1 maxNum))
                        (takeWhile (\<lambda>x. x \<noteq> stopHash) (map Hash bs))))"
proof -
  from assms(1,2) obtain d where "Get (db bc) beginHash = Some d"
    by (cases bs) (auto split: option.splits)
  then have "LocationHash (Iterator bc) beginHash = Inr \<lparr>currentHash = beginHash, iter_db = db bc\<rparr>"
    by (simp add: LocationHash_def Iterator_def)
  then show ?thesis
    using GetBlockHashes_loop_chain [OF assms, of stopHash maxNum "[]" 0]
    by (simp add: GetBlockHashes_def)
qed

text \<open>
  On the chain of five blocks, the hashes from the tip down to, and without, genesis.
\<close>

lemma GetBlockHashes_five_blocks:
  "GetBlockHashes ex_E 10 ex_bc [5] [1] 1000 = Some (Inr [[5], [4], [3], [2]])"
  by code_simp

text \<open>
  Claim C5. With limit 0, and with a negative limit, the walk from block 4 towards
  genesis does not stop "having collected maxCount hashes": the counter is compared
  with the limit only after a hash has been appended, so one hash is returned.
\<close>

theorem GetBlockHashes_zero_limit:
  "chain_from ex_E (db ex_bc) [5] ex_chain
   \<and> GetBlockHashes ex_E 10 ex_bc [5] [1] 0 = Some (Inr [[5]])
   \<and> GetBlockHashes ex_E 10 ex_bc [5] [1] (- 3) = Some (Inr [[5]])"
  by code_simp

text \<open>
  Claim C3. In the chain with tip block 4, the second transaction of block 1 is not a
  coinbase and spends output 0 of the coinbase of block 1, and the second transaction
  of block 2 spends output 0 of the coinbase of genesis. The output spent from a later
  block is absent from the map that \<^verbatim>\<open>FindUTXO\<close> returns. The output spent in
  its own block is still listed under the coinbase's identifier: the scan of block 1
  meets the coinbase first, when nothing is recorded as spent for it yet.
\<close>

theorem FindUTXO_spent_in_same_block:
  "chain_from ex_E (db ex_bc) (lastBlockHash ex_bc) ex_chain
   \<and> Transactions ex_block1 = [ex_coinbase 1, ex_spend]
   \<and> \<not> IsCoinBase ex_E ex_spend
   \<and> map PreviousOutPoint (Inputs ex_spend) = [\<lparr>OutHash = ID (ex_coinbase 1), Index = 0\<rparr>]
   \<and> map_option (map_sum id (\<lambda>UTXO. (UTXO (ID (ex_coinbase 1)), UTXO (ID (ex_coinbase 0)))))
        (FindUTXO ex_E 10 ex_bc)
       = Some (Inr (Some (Outputs (ex_coinbase 1)), None))"
  by code_simp

lemma ex_chain_from: "chain_from ex_E (db ex_bc) (lastBlockHash ex_bc) ex_chain"
  by code_simp

lemma ex_chain_length: "length ex_chain < 10"
  by (simp add: ex_chain_def)

theorem FindTransaction_chain_witness:
  "chain_from ex_E (db ex_bc) (lastBlockHash ex_bc) ex_chain \<and> length ex_chain < 10
   \<and> FindTransaction ex_E 10 ex_bc [0xD1] = Some (Inr ex_spend)
   \<and> FindTransaction ex_E 10 ex_bc [0xEE] = Some (Inl ErrorNotFoundTransaction)"
proof -
  have f1: "find (\<lambda>tx. ID tx = [0xD1]) (chain_txs ex_chain) = Some ex_spend" by code_simp
  have f2: "find (\<lambda>tx. ID tx = [0xEE]) (chain_txs ex_chain) = None" by code_simp
  have "FindTransaction ex_E 10 ex_bc [0xD1] = Some (Inr ex_spend)"
    using FindTransaction_chain [OF ex_chain_from ex_chain_length, of "[0xD1]"] f1 by simp
  moreover have "FindTransaction ex_E 10 ex_bc [0xEE] = Some (Inl ErrorNotFoundTransaction)"
    using FindTransaction_chain [OF ex_chain_from ex_chain_length, of "[0xEE]"] f2 by simp
  ultimately show ?thesis using ex_chain_from ex_chain_length by blast
qed

theorem VerifyTransaction_coinbase_witness:
  "IsCoinBase ex_E (ex_coinbase 0)
   \<and> VerifyTransaction ex_E 0 ex_empty (ex_coinbase 0) = Some (Inr True)"
proof -
  have c: "IsCoinBase ex_E (ex_coinbase 0)" by code_simp
  from VerifyTransaction_coinbase [OF c] c show ?thesis by blast
qed

theorem GetBestHeight_read_failure_witness:
  "GetLastBlock ex_E_unread (db ex_bc) = Inl ErrStorage
   \<and> GetBestHeight ex_E_unread ex_bc = 0
   \<and> GetBestHeight ex_E ex_bc = 4
   \<and> GetLastBlock ex_E (db ex_empty) = Inr ([], None)
   \<and> GetBestHeight ex_E ex_empty = 0"
proof -
  have a: "GetLastBlock ex_E_unread (db ex_bc) = Inl ErrStorage"
    by (simp add: ex_E_unread_def)
  have b: "GetLastBlock ex_E (db ex_empty) = Inr ([], None)" by code_simp
  have c: "GetBestHeight ex_E ex_bc = 4" by code_simp
  from GetBestHeight_read_failure [of ex_E_unread ex_bc] a
  have d: "GetBestHeight ex_E_unread ex_bc = 0" by blast
  from GetBestHeight_read_failure [of ex_E ex_empty] b
  have e: "GetBestHeight ex_E ex_empty = 0" by blast
  from a b c d e show ?thesis by blast
qed

lemma ex_pay_verified: "VerifyTransaction ex_E 10 ex_bc ex_pay = Some (Inr True)"
  by code_simp

lemma ex_unsigned_rejected: "VerifyTransaction ex_E 10 ex_bc ex_unsigned = Some (Inr False)"
  by code_simp

lemma ex_last_block: "GetLastBlock ex_E (db ex_bc) = Inr ([5], Some [0xB0, 5])"
  by code_simp

lemma ex_search_cancelled:
  "NewBlock ex_E [ex_pay] [5] (Height (DeserializeBlock ex_E (slice_bytes (Some [0xB0, 5]))) + 1)
     = (ex_candidate [ex_pay] [5] 5, False)"
  by code_simp

theorem MineBlock_invalid_transaction_fatal_witness:
  "ex_unsigned \<in> set [ex_pay, ex_unsigned]
   \<and> VerifyTransaction ex_E 10 ex_bc ex_pay = Some (Inr True)
   \<and> VerifyTransaction ex_E 10 ex_bc ex_unsigned = Some (Inr False)
   \<and> MineBlock ex_E 10 ex_bc [ex_pay, ex_unsigned] = Some (Inl PanicInvalidTransaction)"
proof -
  have m: "ex_unsigned \<in> set [ex_pay, ex_unsigned]" by simp
  have "\<forall>u \<in> set [ex_pay, ex_unsigned]. \<exists>r. VerifyTransaction ex_E 10 ex_bc u = Some (Inr r)"
    using ex_pay_verified ex_unsigned_rejected by auto
  with MineBlock_invalid_transaction_fatal [OF m ex_unsigned_rejected]
  have "MineBlock ex_E 10 ex_bc [ex_pay, ex_unsigned] = Some (Inl PanicInvalidTransaction)"
    by blast
  with m ex_pay_verified ex_unsigned_rejected show ?thesis by blast
qed

theorem MineBlock_cancelled_persists_nothing_witness:
  "GetLastBlock ex_E (db ex_bc) = Inr ([5], Some [0xB0, 5])
   \<and> snd (NewBlock ex_E [ex_pay] [5]
            (Height (DeserializeBlock ex_E (slice_bytes (Some [0xB0, 5]))) + 1)) = False
   \<and> verify_transactions ex_E 10 ex_bc [ex_pay] = Some (Inr ())
   \<and> (\<exists>blk. MineBlock ex_E 10 ex_bc [ex_pay] = Some (Inr (ex_bc, blk, False)))"
proof -
  have c: "snd (NewBlock ex_E [ex_pay] [5]
            (Height (DeserializeBlock ex_E (slice_bytes (Some [0xB0, 5]))) + 1)) = False"
    by (simp add: ex_search_cancelled)
  have v: "verify_transactions ex_E 10 ex_bc [ex_pay] = Some (Inr ())"
    by (simp add: ex_pay_verified)
  from MineBlock_cancelled_persists_nothing [OF ex_last_block c, of 10] v
  have "\<exists>blk. MineBlock ex_E 10 ex_bc [ex_pay] = Some (Inr (ex_bc, blk, False))"
    by blast
  with ex_last_block c v show ?thesis by blast
qed

lemma ex_unsaved_verified: "verify_transactions ex_E_unsaved 10 ex_bc [ex_pay] = Some (Inr ())"
  by code_simp

lemma ex_unsaved_last_block: "GetLastBlock ex_E_unsaved (db ex_bc) = Inr ([5], Some [0xB0, 5])"
  by code_simp

lemma ex_unsaved_solved:
  "NewBlock ex_E_unsaved [ex_pay] [5]
     (Height (DeserializeBlock ex_E_unsaved (slice_bytes (Some [0xB0, 5]))) + 1)
     = (ex_candidate [ex_pay] [5] 5, True)"
  by code_simp

lemma ex_unsaved_result: "MineBlock ex_E_unsaved 10 ex_bc [ex_pay] = Some (Inr (ex_bc, None, False))"
  using MineBlock_solved [OF ex_unsaved_verified ex_unsaved_last_block ex_unsaved_solved]
  by (simp add: ex_E_unsaved_def)

theorem MineBlock_returned_block_witness:
  "verify_transactions ex_E 10 ex_bc [ex_pay] = Some (Inr ())
   \<and> GetLastBlock ex_E (db ex_bc) = Inr ([5], Some [0xB0, 5])
   \<and> NewBlock ex_E [ex_pay] [5]
        (Height (DeserializeBlock ex_E (slice_bytes (Some [0xB0, 5]))) + 1)
       = (ex_candidate [ex_pay] [5] 5, False)
   \<and> MineBlock ex_E 10 ex_bc [ex_pay]
       = Some (Inr (ex_bc, Some (ex_candidate [ex_pay] [5] 5), False))
   \<and> MineBlock ex_E_unsaved 10 ex_bc [ex_pay] = Some (Inr (ex_bc, None, False))
   \<and> (\<exists>lastHash lastBlockData newBlock err.
         NewBlock ex_E_unsaved [ex_pay] lastHash
           (Height (DeserializeBlock ex_E_unsaved (slice_bytes lastBlockData)) + 1)
           = (newBlock, True)
         \<and> SaveBlock ex_E_unsaved (db ex_bc) (Hash newBlock)
             (SerializeBlock ex_E_unsaved newBlock) = Inl err)"
proof -
  have v: "verify_transactions ex_E 10 ex_bc [ex_pay] = Some (Inr ())"
    by (simp add: ex_pay_verified)
  have a: "MineBlock ex_E 10 ex_bc [ex_pay]
             = Some (Inr (ex_bc, Some (ex_candidate [ex_pay] [5] 5), False))"
    using MineBlock_returned_block [of ex_E 10 ex_bc "[ex_pay]"] v ex_last_block ex_search_cancelled
    by blast
  have b: "\<exists>lastHash lastBlockData newBlock err.
         NewBlock ex_E_unsaved [ex_pay] lastHash
           (Height (DeserializeBlock ex_E_unsaved (slice_bytes lastBlockData)) + 1)
           = (newBlock, True)
         \<and> SaveBlock ex_E_unsaved (db ex_bc) (Hash newBlock)
             (SerializeBlock ex_E_unsaved newBlock) = Inl err"
    using MineBlock_returned_block [of ex_E_unsaved 10 ex_bc "[ex_pay]"] ex_unsaved_result
    by blast
  from v ex_last_block ex_search_cancelled a ex_unsaved_result b show ?thesis by blast
qed

end
